theory Spec2Isabelle
  imports Complex_Main "HOL-Library.Multiset"
begin

section \<open>Food delivery routing: the data model of \<open>streamlit_app.py\<close>\<close>

text \<open>
  The three classes of the source. Two of them have fields called \<open>id\<close>, \<open>name\<close> and
  \<open>location\<close>; the fields of \<open>Restaurant\<close> carry the prefix \<open>rest_\<close> and the identifier and
  name of a \<open>Rider\<close> the prefix \<open>rider_\<close>, since record fields are constants of the theory
  (and \<open>id\<close> is the identity function of HOL). Python integers are unbounded: \<open>int\<close>.
  The rating is a float that is stored and printed, never computed with.
\<close>

record Restaurant =
  rest_id :: int
  rest_name :: string
  rating :: real
  rest_location :: int

record Rider =
  rider_id :: int
  rider_name :: string
  location :: int
  deliveries_done :: int

record Order =
  order_id :: int
  restaurant_name :: string
  restaurant_loc :: int
  customer_loc :: int

text \<open>
  The functions of the source return nothing and report through \<open>print\<close>. Each constructor
  below is one \<open>print\<close> call of the source (a banner of two lines counts as one), carrying
  the values that the call interpolates.
\<close>

datatype message =
    RestaurantsHeader
  | RestaurantRow int string real int
  | RestaurantsFooter
  | InvalidInput
  | InvalidRestaurantID
  | Success int
  | NoOrdersPending
  | Processing int string
  | AssignedToRider string
  | TimeToRestaurant int
  | TimeToCustomer int
  | TotalTime int
  | NoRidersFound
  | RidersHeader
  | RiderRow string int int
  | NothingToUndo
  | UndoingAction string
  | UndoNote
  | Menu
  | InvalidChoice

subsection \<open>The global variables\<close>

text \<open>
  \<open>my_restaurants\<close> is the hand-written singly linked list: a chain of nodes ending in
  \<open>None\<close>, which is a HOL list. \<open>my_riders\<close> is a Python list of \<open>Rider\<close> objects, each
  object created once and appended once, so an object is identified by its position.
  \<open>order_queue\<close> is the deque (head first) and \<open>undo_stack\<close> a Python list used as a
  stack whose top is its last element.
\<close>

record state =
  my_restaurants :: "Restaurant list"
  my_riders :: "Rider list"
  order_queue :: "Order list"
  undo_stack :: "string list"
  order_id_counter :: int

definition globals :: state where
  "globals = \<lparr>my_restaurants = [], my_riders = [], order_queue = [], undo_stack = [],
     order_id_counter = 1\<rparr>"

subsection \<open>Rendering an integer in an f-string\<close>

definition digit_char :: "nat \<Rightarrow> char" where
  "digit_char d = ''0123456789'' ! d"

function str_nat :: "nat \<Rightarrow> string" where
  "str_nat n = (if n < 10 then [digit_char n] else str_nat (n div 10) @ [digit_char (n mod 10)])"
  by pat_completeness auto
termination
  by (relation "measure (\<lambda>n. n)") auto

declare str_nat.simps [simp del]

definition str_int :: "int \<Rightarrow> string" where
  "str_int i = (if i < 0 then CHR ''-'' # str_nat (nat (- i)) else str_nat (nat i))"

subsection \<open>The linked list of restaurants\<close>

definition add_restaurant :: "int \<Rightarrow> string \<Rightarrow> real \<Rightarrow> int \<Rightarrow> Restaurant list \<Rightarrow> Restaurant list" where
  "add_restaurant i n r loc rs =
     rs @ [\<lparr>rest_id = i, rest_name = n, rating = r, rest_location = loc\<rparr>]"

fun display_rows :: "Restaurant list \<Rightarrow> message list" where
  "display_rows [] = []"
| "display_rows (r # rs) =
     RestaurantRow (rest_id r) (rest_name r) (rating r) (rest_location r) # display_rows rs"

definition display :: "Restaurant list \<Rightarrow> message list" where
  "display rs = RestaurantsHeader # display_rows rs @ [RestaurantsFooter]"

fun find_by_id :: "Restaurant list \<Rightarrow> int \<Rightarrow> Restaurant option" where
  "find_by_id [] i = None"
| "find_by_id (r # rs) i = (if rest_id r = i then Some r else find_by_id rs i)"

subsection \<open>Seed data\<close>

definition initialize_data :: "state \<Rightarrow> state" where
  "initialize_data s =
     s\<lparr>my_restaurants :=
         add_restaurant 103 ''Subway'' 4.0 5
           (add_restaurant 102 ''Pizza Hut'' 4.2 8
             (add_restaurant 101 ''Burger King'' 4.5 2 (my_restaurants s))),
       my_riders := my_riders s @
         [\<lparr>rider_id = 201, rider_name = ''Ali'', location = 1, deliveries_done = 0\<rparr>,
          \<lparr>rider_id = 202, rider_name = ''Bilal'', location = 6, deliveries_done = 2\<rparr>,
          \<lparr>rider_id = 203, rider_name = ''Hamza'', location = 3, deliveries_done = 0\<rparr>]\<rparr>"

subsection \<open>Placing an order\<close>

text \<open>
  The two arguments are the two lines read by \<open>int(input(...))\<close>: \<open>None\<close> is a line
  that \<open>int\<close> rejects (the \<open>ValueError\<close> branch), \<open>Some n\<close> a line that parses to \<open>n\<close>.
\<close>

definition place_order :: "int option \<Rightarrow> int option \<Rightarrow> state \<Rightarrow> message list \<times> state" where
  "place_order rest_in cust_in s =
     (case (rest_in, cust_in) of
        (Some rest, Some cust_loc) \<Rightarrow>
          (case find_by_id (my_restaurants s) rest of
             None \<Rightarrow> (display (my_restaurants s) @ [InvalidRestaurantID], s)
           | Some r \<Rightarrow>
               let new_order = \<lparr>order_id = order_id_counter s, restaurant_name = rest_name r,
                                restaurant_loc = rest_location r, customer_loc = cust_loc\<rparr>
               in (display (my_restaurants s) @ [Success (order_id new_order)],
                   s\<lparr>order_id_counter := order_id_counter s + 1,
                     order_queue := order_queue s @ [new_order],
                     undo_stack := undo_stack s @
                       [''Placed Order #'' @ str_int (order_id new_order)]\<rparr>))
      | _ \<Rightarrow> (display (my_restaurants s) @ [InvalidInput], s))"

subsection \<open>Processing the next order\<close>

text \<open>
  The \<open>for rider in my_riders\<close> loop. The loop state is \<open>(best_rider, min_distance)\<close>;
  \<open>best_rider\<close> refers to an object of the list, here its index, and \<open>i\<close> is the index of
  the rider the loop is at.
\<close>

fun rider_loop :: "Rider list \<Rightarrow> int \<Rightarrow> nat \<Rightarrow> nat option \<times> int \<Rightarrow> nat option \<times> int" where
  "rider_loop [] rl i (best_rider, min_distance) = (best_rider, min_distance)"
| "rider_loop (rider # rest) rl i (best_rider, min_distance) =
     (let dist = \<bar>location rider - rl\<bar>
      in if dist < min_distance then rider_loop rest rl (Suc i) (Some i, dist)
         else rider_loop rest rl (Suc i) (best_rider, min_distance))"

definition process_order :: "state \<Rightarrow> message list \<times> state" where
  "process_order s =
     (case order_queue s of
        [] \<Rightarrow> ([NoOrdersPending], s)
      | current_order # pending \<Rightarrow>
          (case rider_loop (my_riders s) (restaurant_loc current_order) 0 (None, 1000) of
             (Some b, min_distance) \<Rightarrow>
               let dist_to_cust = \<bar>restaurant_loc current_order - customer_loc current_order\<bar>;
                   total_dist = min_distance + dist_to_cust;
                   best_rider = my_riders s ! b
               in ([Processing (order_id current_order) (restaurant_name current_order),
                    AssignedToRider (rider_name best_rider),
                    TimeToRestaurant min_distance,
                    TimeToCustomer dist_to_cust,
                    TotalTime total_dist],
                   s\<lparr>order_queue := pending,
                     my_riders := (my_riders s)
                       [b := best_rider\<lparr>deliveries_done := deliveries_done best_rider + 1,
                                         location := customer_loc current_order\<rparr>],
                     undo_stack := undo_stack s @
                       [''Processed Order #'' @ str_int (order_id current_order)]\<rparr>)
           | (None, min_distance) \<Rightarrow>
               ([Processing (order_id current_order) (restaurant_name current_order),
                 NoRidersFound],
                s\<lparr>order_queue := pending\<rparr>)))"

subsection \<open>The riders sorted by workload\<close>

text \<open>
  \<open>list.sort(key=...)\<close> is Python's built-in sort: ascending in the key and stable. The
  stable ascending arrangement of a list is unique, and \<open>sort_key\<close> (insertion from the
  right, each element placed before the first key that is not smaller) computes it.
\<close>

definition show_riders_sorted :: "state \<Rightarrow> message list \<times> state" where
  "show_riders_sorted s =
     (let sorted_riders = sort_key deliveries_done (my_riders s)
      in (RidersHeader #
            map (\<lambda>r. RiderRow (rider_name r) (location r) (deliveries_done r)) sorted_riders,
          s\<lparr>my_riders := sorted_riders\<rparr>))"

subsection \<open>Undo\<close>

definition undo_last_action :: "state \<Rightarrow> message list \<times> state" where
  "undo_last_action s =
     (if undo_stack s = [] then ([NothingToUndo], s)
      else let last_action = last (undo_stack s)
           in ([UndoingAction last_action, UndoNote],
               s\<lparr>undo_stack := butlast (undo_stack s)\<rparr>))"

subsection \<open>The menu loop\<close>

text \<open>
  One value of \<open>choice\<close> is one line typed at the menu; choice 1 comes with the two lines
  that \<open>place_order\<close> reads. \<open>menu_choice\<close> is the \<open>if\<close>/\<open>elif\<close> chain of the loop body
  without its \<open>break\<close>; the loop itself runs over the lines typed and stops at choice 5, or
  after the menu when no line is left to read.
\<close>

datatype choice =
    Choice1 "int option" "int option"
  | Choice2
  | Choice3
  | Choice4
  | Choice5
  | OtherChoice

definition menu_choice :: "choice \<Rightarrow> state \<Rightarrow> message list \<times> state" where
  "menu_choice c s =
     (case c of
        Choice1 rest_in cust_in \<Rightarrow> place_order rest_in cust_in s
      | Choice2 \<Rightarrow> process_order s
      | Choice3 \<Rightarrow> show_riders_sorted s
      | Choice4 \<Rightarrow> undo_last_action s
      | Choice5 \<Rightarrow> ([], s)
      | OtherChoice \<Rightarrow> ([InvalidChoice], s))"

fun main_loop :: "choice list \<Rightarrow> state \<Rightarrow> message list \<times> state" where
  "main_loop [] s = ([Menu], s)"
| "main_loop (c # cs) s =
     (if c = Choice5 then ([Menu], s)
      else let (out, s') = menu_choice c s;
               (outs, s'') = main_loop cs s'
           in (Menu # out @ outs, s''))"

definition main :: "choice list \<Rightarrow> message list \<times> state" where
  "main cs = main_loop cs (initialize_data globals)"

subsection \<open>Reading the output and the roster\<close>

text \<open>
  The identifiers that a run reports as placed (\<open>Success! Order #n\<close>) and as taken from
  the queue (\<open>Processing Order #n\<close>), in the order of the output.
\<close>

fun placed_ids :: "message list \<Rightarrow> int list" where
  "placed_ids [] = []"
| "placed_ids (Success n # ms) = n # placed_ids ms"
| "placed_ids (m # ms) = placed_ids ms"

fun processed_ids :: "message list \<Rightarrow> int list" where
  "processed_ids [] = []"
| "processed_ids (Processing n nm # ms) = n # processed_ids ms"
| "processed_ids (m # ms) = processed_ids ms"

text \<open>
  A line typed at the menu that places an order: choice 1, two lines that parse, and an
  identifier that \<open>find_by_id\<close> finds in the list of restaurants \<open>rs\<close>.
\<close>

definition accepted :: "Restaurant list \<Rightarrow> choice \<Rightarrow> bool" where
  "accepted rs c =
     (case c of
        Choice1 (Some rest) (Some cust_loc) \<Rightarrow> find_by_id rs rest \<noteq> None
      | _ \<Rightarrow> False)"

text \<open>
  Position \<open>b\<close> of the roster \<open>rs\<close> holds a rider nearest to \<open>rl\<close>, and every rider
  before position \<open>b\<close> is strictly farther: the first of the nearest riders.
\<close>

definition nearest_first :: "Rider list \<Rightarrow> int \<Rightarrow> nat \<Rightarrow> bool" where
  "nearest_first rs rl b \<longleftrightarrow>
     b < length rs \<and>
     (\<forall>r \<in> set rs. \<bar>location (rs ! b) - rl\<bar> \<le> \<bar>location r - rl\<bar>) \<and>
     (\<forall>r \<in> set (take b rs). \<bar>location (rs ! b) - rl\<bar> < \<bar>location r - rl\<bar>)"

section \<open>The scan of the roster\<close>

text \<open>
  What the loop returns from any loop state: either no rider of the rest of the list is
  strictly nearer than \<open>min_distance\<close> and the loop state is unchanged, or the result is
  the first of the nearest riders of the rest, strictly nearer than \<open>min_distance\<close>.
\<close>

lemma rider_loop_inv:
  "rider_loop xs rl i (b, m) = (b', m') \<Longrightarrow>
     ((\<forall>r \<in> set xs. m \<le> \<bar>location r - rl\<bar>) \<and> b' = b \<and> m' = m) \<or>
     (\<exists>j < length xs. b' = Some (i + j) \<and> m' = \<bar>location (xs ! j) - rl\<bar> \<and> m' < m \<and>
        (\<forall>r \<in> set xs. m' \<le> \<bar>location r - rl\<bar>) \<and>
        (\<forall>r \<in> set (take j xs). m' < \<bar>location r - rl\<bar>))"
proof (induction xs arbitrary: i b m)
  case Nil
  then show ?case by simp
next
  case (Cons x xs)
  let ?d = "\<bar>location x - rl\<bar>"
  let ?found = "\<lambda>j. j < length (x # xs) \<and> b' = Some (i + j) \<and>
        m' = \<bar>location ((x # xs) ! j) - rl\<bar> \<and> m' < m \<and>
        (\<forall>r \<in> set (x # xs). m' \<le> \<bar>location r - rl\<bar>) \<and>
        (\<forall>r \<in> set (take j (x # xs)). m' < \<bar>location r - rl\<bar>)"
  show ?case
  proof (cases "?d < m")
    case True
    with Cons.prems have run: "rider_loop xs rl (Suc i) (Some i, ?d) = (b', m')"
      by (simp add: Let_def)
    from Cons.IH [OF run] show ?thesis
    proof
      assume "(\<forall>r \<in> set xs. ?d \<le> \<bar>location r - rl\<bar>) \<and> b' = Some i \<and> m' = ?d"
      with True have "?found 0" by auto
      then show ?thesis by blast
    next
      assume "\<exists>j < length xs. b' = Some (Suc i + j) \<and> m' = \<bar>location (xs ! j) - rl\<bar> \<and>
        m' < ?d \<and> (\<forall>r \<in> set xs. m' \<le> \<bar>location r - rl\<bar>) \<and>
        (\<forall>r \<in> set (take j xs). m' < \<bar>location r - rl\<bar>)"
      then obtain j where "j < length xs" "b' = Some (Suc i + j)"
        "m' = \<bar>location (xs ! j) - rl\<bar>" "m' < ?d"
        "\<forall>r \<in> set xs. m' \<le> \<bar>location r - rl\<bar>"
        "\<forall>r \<in> set (take j xs). m' < \<bar>location r - rl\<bar>" by blast
      with True have "?found (Suc j)" by auto
      then show ?thesis by blast
    qed
  next
    case False
    with Cons.prems have run: "rider_loop xs rl (Suc i) (b, m) = (b', m')"
      by (simp add: Let_def)
    from Cons.IH [OF run] show ?thesis
    proof
      assume "(\<forall>r \<in> set xs. m \<le> \<bar>location r - rl\<bar>) \<and> b' = b \<and> m' = m"
      with False show ?thesis by auto
    next
      assume "\<exists>j < length xs. b' = Some (Suc i + j) \<and> m' = \<bar>location (xs ! j) - rl\<bar> \<and>
        m' < m \<and> (\<forall>r \<in> set xs. m' \<le> \<bar>location r - rl\<bar>) \<and>
        (\<forall>r \<in> set (take j xs). m' < \<bar>location r - rl\<bar>)"
      then obtain j where "j < length xs" "b' = Some (Suc i + j)"
        "m' = \<bar>location (xs ! j) - rl\<bar>" "m' < m"
        "\<forall>r \<in> set xs. m' \<le> \<bar>location r - rl\<bar>"
        "\<forall>r \<in> set (take j xs). m' < \<bar>location r - rl\<bar>" by blast
      with False have "?found (Suc j)" by auto
      then show ?thesis by blast
    qed
  qed
qed

lemma rider_loop_None:
  assumes "rider_loop xs rl 0 (None, 1000) = (None, m')"
  shows "\<forall>r \<in> set xs. 1000 \<le> \<bar>location r - rl\<bar>"
  using rider_loop_inv [OF assms] by auto

lemma rider_loop_Some:
  assumes "rider_loop xs rl 0 (None, 1000) = (Some b, d)"
  shows "nearest_first xs rl b \<and> d = \<bar>location (xs ! b) - rl\<bar> \<and> d < 1000"
  using rider_loop_inv [OF assms] by (auto simp: nearest_first_def)

lemma nearest_first_unique:
  assumes "nearest_first rs rl b" and "nearest_first rs rl c"
  shows "b = c"
proof (rule ccontr)
  assume "b \<noteq> c"
  then consider "b < c" | "c < b" by linarith
  then show False
  proof cases
    case 1
    with assms have "rs ! b \<in> set (take c rs)"
      by (auto simp: nearest_first_def in_set_conv_nth intro!: exI [of _ b])
    with assms have "\<bar>location (rs ! c) - rl\<bar> < \<bar>location (rs ! b) - rl\<bar>"
      by (simp add: nearest_first_def)
    moreover from assms have "\<bar>location (rs ! b) - rl\<bar> \<le> \<bar>location (rs ! c) - rl\<bar>"
      by (simp add: nearest_first_def)
    ultimately show False by simp
  next
    case 2
    with assms have "rs ! c \<in> set (take b rs)"
      by (auto simp: nearest_first_def in_set_conv_nth intro!: exI [of _ c])
    with assms have "\<bar>location (rs ! b) - rl\<bar> < \<bar>location (rs ! c) - rl\<bar>"
      by (simp add: nearest_first_def)
    moreover from assms have "\<bar>location (rs ! c) - rl\<bar> \<le> \<bar>location (rs ! b) - rl\<bar>"
      by (simp add: nearest_first_def)
    ultimately show False by simp
  qed
qed

section \<open>One processing step\<close>

lemmas run_defs = main_def globals_def initialize_data_def add_restaurant_def display_def
  place_order_def process_order_def show_riders_sorted_def undo_last_action_def
  menu_choice_def Let_def

lemmas str_defs = str_int_def str_nat.simps digit_char_def

text \<open>
  With an order at the head of the queue, \<open>process_order\<close> does one of two things. If it
  reports that no rider was found, every rider is 1000 or more away from the restaurant
  (1000 is the starting value of \<open>min_distance\<close>, and only a strictly smaller distance
  replaces it); the order has left the queue and nothing else has changed.
\<close>

lemma process_order_no_rider:
  assumes q: "order_queue s = current_order # pending"
    and none: "NoRidersFound \<in> set (fst (process_order s))"
  shows "process_order s =
           ([Processing (order_id current_order) (restaurant_name current_order),
             NoRidersFound],
            s\<lparr>order_queue := pending\<rparr>) \<and>
         (\<forall>r \<in> set (my_riders s). 1000 \<le> \<bar>location r - restaurant_loc current_order\<bar>)"
proof (cases "rider_loop (my_riders s) (restaurant_loc current_order) 0 (None, 1000)")
  case (Pair best d)
  show ?thesis
  proof (cases best)
    case None
    with Pair rider_loop_None
    have "\<forall>r \<in> set (my_riders s). 1000 \<le> \<bar>location r - restaurant_loc current_order\<bar>"
      by blast
    with q Pair None show ?thesis
      by (simp add: process_order_def)
  next
    case (Some b)
    with q Pair none show ?thesis
      by (simp add: process_order_def Let_def)
  qed
qed

text \<open>
  Otherwise the first of the nearest riders delivers the order, and that rider is less
  than 1000 away from the restaurant.
\<close>

lemma process_order_rider:
  assumes q: "order_queue s = current_order # pending"
    and some: "NoRidersFound \<notin> set (fst (process_order s))"
  shows "\<exists>b. nearest_first (my_riders s) (restaurant_loc current_order) b \<and>
           \<bar>location (my_riders s ! b) - restaurant_loc current_order\<bar> < 1000 \<and>
           process_order s =
             ([Processing (order_id current_order) (restaurant_name current_order),
               AssignedToRider (rider_name (my_riders s ! b)),
               TimeToRestaurant \<bar>location (my_riders s ! b) - restaurant_loc current_order\<bar>,
               TimeToCustomer \<bar>restaurant_loc current_order - customer_loc current_order\<bar>,
               TotalTime (\<bar>location (my_riders s ! b) - restaurant_loc current_order\<bar> +
                 \<bar>restaurant_loc current_order - customer_loc current_order\<bar>)],
              s\<lparr>order_queue := pending,
                my_riders := (my_riders s)
                  [b := (my_riders s ! b)
                     \<lparr>deliveries_done := deliveries_done (my_riders s ! b) + 1,
                      location := customer_loc current_order\<rparr>],
                undo_stack := undo_stack s @
                  [''Processed Order #'' @ str_int (order_id current_order)]\<rparr>)"
proof (cases "rider_loop (my_riders s) (restaurant_loc current_order) 0 (None, 1000)")
  case (Pair best d)
  show ?thesis
  proof (cases best)
    case None
    with q Pair some show ?thesis
      by (simp add: process_order_def)
  next
    case (Some b)
    with Pair
    have run: "rider_loop (my_riders s) (restaurant_loc current_order) 0 (None, 1000) = (Some b, d)"
      by simp
    note facts = rider_loop_Some [OF run]
    from q run facts show ?thesis
      by (intro exI [of _ b]) (simp add: process_order_def Let_def)
  qed
qed

text \<open>
  So a rider is assigned exactly when some rider is less than 1000 away, whatever the
  length of the roster.
\<close>

lemma no_riders_found_iff:
  assumes q: "order_queue s = current_order # pending"
  shows "NoRidersFound \<in> set (fst (process_order s)) \<longleftrightarrow>
         (\<forall>r \<in> set (my_riders s). 1000 \<le> \<bar>location r - restaurant_loc current_order\<bar>)"
proof
  assume "NoRidersFound \<in> set (fst (process_order s))"
  with q process_order_no_rider
  show "\<forall>r \<in> set (my_riders s). 1000 \<le> \<bar>location r - restaurant_loc current_order\<bar>"
    by blast
next
  assume far: "\<forall>r \<in> set (my_riders s). 1000 \<le> \<bar>location r - restaurant_loc current_order\<bar>"
  show "NoRidersFound \<in> set (fst (process_order s))"
  proof (rule ccontr)
    assume "NoRidersFound \<notin> set (fst (process_order s))"
    from process_order_rider [OF q this] obtain b
      where nf: "nearest_first (my_riders s) (restaurant_loc current_order) b"
        and near: "\<bar>location (my_riders s ! b) - restaurant_loc current_order\<bar> < 1000"
      by blast
    from nf have "my_riders s ! b \<in> set (my_riders s)"
      by (simp add: nearest_first_def)
    with far near show False by force
  qed
qed

text \<open>
  When some rider is less than 1000 away, the rider assigned is the first of the nearest
  riders in the order of the roster.
\<close>

lemma process_order_nearest:
  assumes q: "order_queue s = current_order # pending"
    and near: "\<exists>r \<in> set (my_riders s). \<bar>location r - restaurant_loc current_order\<bar> < 1000"
  shows "\<exists>b. nearest_first (my_riders s) (restaurant_loc current_order) b \<and>
     fst (process_order s) =
       [Processing (order_id current_order) (restaurant_name current_order),
        AssignedToRider (rider_name (my_riders s ! b)),
        TimeToRestaurant \<bar>location (my_riders s ! b) - restaurant_loc current_order\<bar>,
        TimeToCustomer \<bar>restaurant_loc current_order - customer_loc current_order\<bar>,
        TotalTime (\<bar>location (my_riders s ! b) - restaurant_loc current_order\<bar> +
          \<bar>restaurant_loc current_order - customer_loc current_order\<bar>)] \<and>
     my_riders (snd (process_order s)) = (my_riders s)
       [b := (my_riders s ! b)\<lparr>deliveries_done := deliveries_done (my_riders s ! b) + 1,
                               location := customer_loc current_order\<rparr>]"
proof -
  from near no_riders_found_iff [OF q] have "NoRidersFound \<notin> set (fst (process_order s))"
    by force
  from process_order_rider [OF q this] show ?thesis
    by force
qed

text \<open>An empty roster is one of the rosters with no rider less than 1000 away.\<close>

lemma process_order_empty_roster:
  assumes "order_queue s = current_order # pending" and "my_riders s = []"
  shows "process_order s =
     ([Processing (order_id current_order) (restaurant_name current_order), NoRidersFound],
      s\<lparr>order_queue := pending\<rparr>)"
  using assms by (simp add: process_order_def)

section \<open>Nearest rider and the starting value of \<open>min_distance\<close>\<close>

text \<open>
  Claim C1: with a non-empty roster and a non-empty queue, \<open>process_order\<close> assigns the
  rider at minimal distance from the restaurant, the earliest of the roster among ties.
  Lemma \<open>process_order_nearest\<close> is this statement for a roster with a rider less than
  1000 away. The run below starts from the seed data: four orders from restaurant 101 (at
  2) for a customer at 5000, three of them processed, which moves Ali, Hamza and Bilal to
  5000. The fourth order is then at the head of the queue and all three riders are 4998
  away, so the first of them is a nearest rider; \<open>process_order\<close> reports that no rider
  was found and leaves every rider as it was.
\<close>

theorem far_riders_left_unassigned:
  "my_riders (snd (main
      [Choice1 (Some 101) (Some 5000), Choice1 (Some 101) (Some 5000),
       Choice1 (Some 101) (Some 5000), Choice1 (Some 101) (Some 5000),
       Choice2, Choice2, Choice2])) =
     [\<lparr>rider_id = 201, rider_name = ''Ali'', location = 5000, deliveries_done = 1\<rparr>,
      \<lparr>rider_id = 202, rider_name = ''Bilal'', location = 5000, deliveries_done = 3\<rparr>,
      \<lparr>rider_id = 203, rider_name = ''Hamza'', location = 5000, deliveries_done = 1\<rparr>] \<and>
   order_queue (snd (main
      [Choice1 (Some 101) (Some 5000), Choice1 (Some 101) (Some 5000),
       Choice1 (Some 101) (Some 5000), Choice1 (Some 101) (Some 5000),
       Choice2, Choice2, Choice2])) =
     [\<lparr>order_id = 4, restaurant_name = ''Burger King'', restaurant_loc = 2,
       customer_loc = 5000\<rparr>] \<and>
   fst (process_order (snd (main
      [Choice1 (Some 101) (Some 5000), Choice1 (Some 101) (Some 5000),
       Choice1 (Some 101) (Some 5000), Choice1 (Some 101) (Some 5000),
       Choice2, Choice2, Choice2]))) =
     [Processing 4 ''Burger King'', NoRidersFound] \<and>
   my_riders (snd (process_order (snd (main
      [Choice1 (Some 101) (Some 5000), Choice1 (Some 101) (Some 5000),
       Choice1 (Some 101) (Some 5000), Choice1 (Some 101) (Some 5000),
       Choice2, Choice2, Choice2])))) =
     [\<lparr>rider_id = 201, rider_name = ''Ali'', location = 5000, deliveries_done = 1\<rparr>,
      \<lparr>rider_id = 202, rider_name = ''Bilal'', location = 5000, deliveries_done = 3\<rparr>,
      \<lparr>rider_id = 203, rider_name = ''Hamza'', location = 5000, deliveries_done = 1\<rparr>]"
  by (simp add: run_defs)

text \<open>
  Claim C2: \<open>process_order\<close> reports that no rider is available if and only if the roster
  is empty, and then the order has left the queue and no rider has changed. Lemma
  \<open>process_order_empty_roster\<close> is the direction from the empty roster, and lemma
  \<open>no_riders_found_iff\<close> says when the report is made. The run below, from the seed data,
  sends the three riders to a customer at -2000 and places a fourth order from
  restaurant 102 (at 8): the roster holds three riders, and \<open>process_order\<close> reports that
  no rider was found and drops the order.
\<close>

theorem no_riders_found_with_three_riders:
  "length (my_riders (snd (main
      [Choice1 (Some 102) (Some (- 2000)), Choice2, Choice1 (Some 102) (Some (- 2000)), Choice2,
       Choice1 (Some 102) (Some (- 2000)), Choice2, Choice1 (Some 102) (Some (- 2000))]))) = 3 \<and>
   process_order (snd (main
      [Choice1 (Some 102) (Some (- 2000)), Choice2, Choice1 (Some 102) (Some (- 2000)), Choice2,
       Choice1 (Some 102) (Some (- 2000)), Choice2, Choice1 (Some 102) (Some (- 2000))])) =
     ([Processing 4 ''Pizza Hut'', NoRidersFound],
      (snd (main
      [Choice1 (Some 102) (Some (- 2000)), Choice2, Choice1 (Some 102) (Some (- 2000)), Choice2,
       Choice1 (Some 102) (Some (- 2000)), Choice2, Choice1 (Some 102) (Some (- 2000))]))
        \<lparr>order_queue := []\<rparr>)"
  by (simp add: run_defs)

section \<open>Placing an order from an unknown restaurant\<close>

lemma find_by_id_None_iff: "find_by_id rs i = None \<longleftrightarrow> i \<notin> rest_id ` set rs"
  by (induction rs) auto

text \<open>
  Claim C3: when the restaurant identifier is not in the linked list, \<open>place_order\<close>
  reports an invalid restaurant and returns the state it was given: the counter of order
  identifiers, the queue and the history are the ones before the call.
\<close>

theorem place_order_unknown_restaurant:
  assumes "rest \<notin> rest_id ` set (my_restaurants s)"
  shows "place_order (Some rest) (Some cust_loc) s =
           (display (my_restaurants s) @ [InvalidRestaurantID], s) \<and>
         order_id_counter (snd (place_order (Some rest) (Some cust_loc) s)) = order_id_counter s \<and>
         order_queue (snd (place_order (Some rest) (Some cust_loc) s)) = order_queue s \<and>
         undo_stack (snd (place_order (Some rest) (Some cust_loc) s)) = undo_stack s"
proof -
  from assms have "find_by_id (my_restaurants s) rest = None"
    by (simp add: find_by_id_None_iff)
  then show ?thesis by (simp add: place_order_def)
qed

text \<open>On the seed data no restaurant has the identifier 999.\<close>

theorem place_order_unknown_restaurant_witness:
  "999 \<notin> rest_id ` set (my_restaurants (initialize_data globals)) \<and>
   place_order (Some 999) (Some 3) (initialize_data globals) =
     ([RestaurantsHeader, RestaurantRow 101 ''Burger King'' 4.5 2,
       RestaurantRow 102 ''Pizza Hut'' 4.2 8, RestaurantRow 103 ''Subway'' 4.0 5,
       RestaurantsFooter, InvalidRestaurantID],
      initialize_data globals)"
  using place_order_unknown_restaurant [of 999 "initialize_data globals" 3]
  by (simp add: globals_def initialize_data_def add_restaurant_def display_def)

section \<open>What a delivery changes\<close>

text \<open>
  Claim C4: when \<open>process_order\<close> assigns a rider to the order at the head of the queue, the
  time to the customer is \<open>\<bar>restaurant_loc - customer_loc\<bar>\<close>, the total is the rider's
  distance to the restaurant plus that time, the rider's \<open>deliveries_done\<close> grows by exactly
  one and the rider's location becomes the customer's location; the other riders are the
  ones before the call.
\<close>

theorem process_order_delivery:
  assumes "order_queue s = current_order # pending"
    and "NoRidersFound \<notin> set (fst (process_order s))"
  shows "\<exists>b < length (my_riders s).
     fst (process_order s) =
       [Processing (order_id current_order) (restaurant_name current_order),
        AssignedToRider (rider_name (my_riders s ! b)),
        TimeToRestaurant \<bar>location (my_riders s ! b) - restaurant_loc current_order\<bar>,
        TimeToCustomer \<bar>restaurant_loc current_order - customer_loc current_order\<bar>,
        TotalTime (\<bar>location (my_riders s ! b) - restaurant_loc current_order\<bar> +
          \<bar>restaurant_loc current_order - customer_loc current_order\<bar>)] \<and>
     my_riders (snd (process_order s)) = (my_riders s)
       [b := (my_riders s ! b)\<lparr>deliveries_done := deliveries_done (my_riders s ! b) + 1,
                               location := customer_loc current_order\<rparr>] \<and>
     deliveries_done (my_riders (snd (process_order s)) ! b) =
       deliveries_done (my_riders s ! b) + 1 \<and>
     location (my_riders (snd (process_order s)) ! b) = customer_loc current_order"
proof -
  from process_order_rider [OF assms] obtain b
    where nf: "nearest_first (my_riders s) (restaurant_loc current_order) b"
      and run: "process_order s =
        ([Processing (order_id current_order) (restaurant_name current_order),
          AssignedToRider (rider_name (my_riders s ! b)),
          TimeToRestaurant \<bar>location (my_riders s ! b) - restaurant_loc current_order\<bar>,
          TimeToCustomer \<bar>restaurant_loc current_order - customer_loc current_order\<bar>,
          TotalTime (\<bar>location (my_riders s ! b) - restaurant_loc current_order\<bar> +
            \<bar>restaurant_loc current_order - customer_loc current_order\<bar>)],
         s\<lparr>order_queue := pending,
           my_riders := (my_riders s)
             [b := (my_riders s ! b)\<lparr>deliveries_done := deliveries_done (my_riders s ! b) + 1,
                                     location := customer_loc current_order\<rparr>],
           undo_stack := undo_stack s @
             [''Processed Order #'' @ str_int (order_id current_order)]\<rparr>)"
    by blast
  from nf have "b < length (my_riders s)"
    by (simp add: nearest_first_def)
  with run show ?thesis
    by (intro exI [of _ b]) simp
qed

text \<open>
  The end-to-end scenario: an order from restaurant 101 (at 2) for a customer at 7, on the
  seed data. Ali, at distance 1, delivers it in 1 + 5 = 6 and ends at 7 with one delivery.
\<close>

theorem process_order_delivery_witness:
  "order_queue (snd (main [Choice1 (Some 101) (Some 7)])) =
     [\<lparr>order_id = 1, restaurant_name = ''Burger King'', restaurant_loc = 2, customer_loc = 7\<rparr>] \<and>
   fst (process_order (snd (main [Choice1 (Some 101) (Some 7)]))) =
     [Processing 1 ''Burger King'', AssignedToRider ''Ali'', TimeToRestaurant 1,
      TimeToCustomer 5, TotalTime 6] \<and>
   my_riders (snd (process_order (snd (main [Choice1 (Some 101) (Some 7)])))) =
     [\<lparr>rider_id = 201, rider_name = ''Ali'', location = 7, deliveries_done = 1\<rparr>,
      \<lparr>rider_id = 202, rider_name = ''Bilal'', location = 6, deliveries_done = 2\<rparr>,
      \<lparr>rider_id = 203, rider_name = ''Hamza'', location = 3, deliveries_done = 0\<rparr>]"
proof -
  let ?s = "snd (main [Choice1 (Some 101) (Some 7)])"
  let ?o = "\<lparr>order_id = 1, restaurant_name = ''Burger King'', restaurant_loc = 2,
             customer_loc = 7\<rparr>"
  have q: "order_queue ?s = [?o]"
    by (simp add: run_defs)
  have riders: "my_riders ?s =
     [\<lparr>rider_id = 201, rider_name = ''Ali'', location = 1, deliveries_done = 0\<rparr>,
      \<lparr>rider_id = 202, rider_name = ''Bilal'', location = 6, deliveries_done = 2\<rparr>,
      \<lparr>rider_id = 203, rider_name = ''Hamza'', location = 3, deliveries_done = 0\<rparr>]"
    by (simp add: run_defs)
  have out: "fst (process_order ?s) =
     [Processing 1 ''Burger King'', AssignedToRider ''Ali'', TimeToRestaurant 1,
      TimeToCustomer 5, TotalTime 6]"
    by (simp add: run_defs)
  then have ok: "NoRidersFound \<notin> set (fst (process_order ?s))"
    by simp
  from process_order_delivery [OF q ok] obtain b where b: "b < length (my_riders ?s)"
    "fst (process_order ?s) =
       [Processing (order_id ?o) (restaurant_name ?o),
        AssignedToRider (rider_name (my_riders ?s ! b)),
        TimeToRestaurant \<bar>location (my_riders ?s ! b) - restaurant_loc ?o\<bar>,
        TimeToCustomer \<bar>restaurant_loc ?o - customer_loc ?o\<bar>,
        TotalTime (\<bar>location (my_riders ?s ! b) - restaurant_loc ?o\<bar> +
          \<bar>restaurant_loc ?o - customer_loc ?o\<bar>)]"
    "my_riders (snd (process_order ?s)) = (my_riders ?s)
       [b := (my_riders ?s ! b)\<lparr>deliveries_done := deliveries_done (my_riders ?s ! b) + 1,
                               location := customer_loc ?o\<rparr>]"
    by blast
  from b(1) riders have "b = 0 \<or> b = 1 \<or> b = 2" by auto
  with b(2) out riders have "b = 0" by auto
  with b(3) riders have "my_riders (snd (process_order ?s)) =
     [\<lparr>rider_id = 201, rider_name = ''Ali'', location = 7, deliveries_done = 1\<rparr>,
      \<lparr>rider_id = 202, rider_name = ''Bilal'', location = 6, deliveries_done = 2\<rparr>,
      \<lparr>rider_id = 203, rider_name = ''Hamza'', location = 3, deliveries_done = 0\<rparr>]"
    by simp
  with q out show ?thesis by blast
qed

section \<open>Order identifiers and the queue\<close>

lemma placed_ids_append: "placed_ids (xs @ ys) = placed_ids xs @ placed_ids ys"
  by (induction xs rule: placed_ids.induct) simp_all

lemma processed_ids_append: "processed_ids (xs @ ys) = processed_ids xs @ processed_ids ys"
  by (induction xs rule: processed_ids.induct) simp_all

lemma ids_display_rows:
  "placed_ids (display_rows rs) = [] \<and> processed_ids (display_rows rs) = []"
  by (induction rs) simp_all

lemma ids_display: "placed_ids (display rs) = [] \<and> processed_ids (display rs) = []"
  by (simp add: display_def placed_ids_append processed_ids_append ids_display_rows)

lemma ids_rider_rows:
  "placed_ids (map (\<lambda>r. RiderRow (rider_name r) (location r) (deliveries_done r)) rs) = [] \<and>
   processed_ids (map (\<lambda>r. RiderRow (rider_name r) (location r) (deliveries_done r)) rs) = []"
  by (induction rs) simp_all

text \<open>
  \<open>place_order\<close> either changes nothing, or creates one order with the current value of the
  counter, appends it at the tail of the queue and advances the counter by one.
\<close>

lemma place_order_ids:
  "processed_ids (fst (place_order a b s)) = [] \<and>
   ((placed_ids (fst (place_order a b s)) = [] \<and> snd (place_order a b s) = s) \<or>
    (\<exists>new_order. order_id new_order = order_id_counter s \<and>
       placed_ids (fst (place_order a b s)) = [order_id_counter s] \<and>
       order_queue (snd (place_order a b s)) = order_queue s @ [new_order] \<and>
       order_id_counter (snd (place_order a b s)) = order_id_counter s + 1))"
  by (auto simp: place_order_def Let_def placed_ids_append processed_ids_append ids_display
      split: option.splits)

text \<open>\<open>process_order\<close> takes the head of the queue, if there is one, and leaves the counter.\<close>

lemma process_order_ids:
  "placed_ids (fst (process_order s)) = [] \<and>
   order_id_counter (snd (process_order s)) = order_id_counter s \<and>
   processed_ids (fst (process_order s)) = map order_id (take 1 (order_queue s)) \<and>
   order_queue (snd (process_order s)) = tl (order_queue s)"
  by (simp add: process_order_def Let_def split: list.splits prod.splits option.splits)

lemma show_riders_sorted_ids:
  "placed_ids (fst (show_riders_sorted s)) = [] \<and>
   processed_ids (fst (show_riders_sorted s)) = [] \<and>
   order_id_counter (snd (show_riders_sorted s)) = order_id_counter s \<and>
   order_queue (snd (show_riders_sorted s)) = order_queue s"
  by (simp add: show_riders_sorted_def Let_def ids_rider_rows)

lemma undo_last_action_ids:
  "placed_ids (fst (undo_last_action s)) = [] \<and>
   processed_ids (fst (undo_last_action s)) = [] \<and>
   order_id_counter (snd (undo_last_action s)) = order_id_counter s \<and>
   order_queue (snd (undo_last_action s)) = order_queue s"
  by (simp add: undo_last_action_def Let_def)

lemma menu_choice_counter:
  "(placed_ids (fst (menu_choice c s)) = [] \<and>
      order_id_counter (snd (menu_choice c s)) = order_id_counter s) \<or>
   (placed_ids (fst (menu_choice c s)) = [order_id_counter s] \<and>
      order_id_counter (snd (menu_choice c s)) = order_id_counter s + 1)"
proof (cases c)
  case (Choice1 a b)
  with place_order_ids [of a b s] show ?thesis
    by (auto simp: menu_choice_def)
qed (simp_all add: menu_choice_def process_order_ids show_riders_sorted_ids undo_last_action_ids)

lemma main_loop_Cons:
  "c \<noteq> Choice5 \<Longrightarrow> main_loop (c # cs) s =
     (Menu # fst (menu_choice c s) @ fst (main_loop cs (snd (menu_choice c s))),
      snd (main_loop cs (snd (menu_choice c s))))"
  by (simp add: Let_def case_prod_beta)

text \<open>
  From any state, the identifiers that a run places count up from the counter of that
  state, and the counter ends one past the last of them.
\<close>

lemma main_loop_counter:
  "placed_ids (fst (main_loop cs s)) =
     map (\<lambda>k. order_id_counter s + int k) [0..<length (placed_ids (fst (main_loop cs s)))] \<and>
   order_id_counter (snd (main_loop cs s)) =
     order_id_counter s + int (length (placed_ids (fst (main_loop cs s))))"
proof (induction cs arbitrary: s)
  case Nil
  show ?case by simp
next
  case (Cons c cs)
  show ?case
  proof (cases "c = Choice5")
    case True
    then show ?thesis by simp
  next
    case False
    let ?t = "snd (menu_choice c s)"
    let ?rest = "placed_ids (fst (main_loop cs ?t))"
    note IH = Cons.IH [of ?t]
    from menu_choice_counter [of c s] show ?thesis
    proof
      assume "placed_ids (fst (menu_choice c s)) = [] \<and>
        order_id_counter ?t = order_id_counter s"
      with IH False show ?thesis
        by (simp add: main_loop_Cons placed_ids_append del: main_loop.simps)
    next
      assume step: "placed_ids (fst (menu_choice c s)) = [order_id_counter s] \<and>
        order_id_counter ?t = order_id_counter s + 1"
      have "map (\<lambda>k. order_id_counter s + int k) [0..<Suc (length ?rest)] =
              order_id_counter s # map (\<lambda>k. order_id_counter s + 1 + int k) [0..<length ?rest]"
        by (simp add: map_upt_Suc del: upt_Suc)
      with IH False step show ?thesis
        by (simp add: main_loop_Cons placed_ids_append del: main_loop.simps upt_Suc)
    qed
  qed
qed

lemma upto_as_map: "[1..int n] = map (\<lambda>k. 1 + int k) [0..<n]"
proof (induction n)
  case 0
  show ?case by simp
next
  case (Suc n)
  have "[1..int (Suc n)] = [1..int n] @ [int n + 1]"
    by (simp add: upto_rec2 add.commute)
  with Suc show ?case by simp
qed

text \<open>\<open>n\<close> processings in a row take the first \<open>n\<close> orders of the queue, head first.\<close>

lemma processings_take_head:
  "processed_ids (fst (main_loop (replicate n Choice2) s)) =
     take n (map order_id (order_queue s)) \<and>
   placed_ids (fst (main_loop (replicate n Choice2) s)) = []"
proof (induction n arbitrary: s)
  case 0
  show ?case by simp
next
  case (Suc n)
  note IH = Suc.IH [of "snd (process_order s)"]
  note step = process_order_ids [of s]
  show ?case
  proof (cases "order_queue s")
    case Nil
    with IH step show ?thesis
      by (simp add: main_loop_Cons menu_choice_def processed_ids_append placed_ids_append
          del: main_loop.simps)
  next
    case (Cons current_order pending)
    with IH step show ?thesis
      by (simp add: main_loop_Cons menu_choice_def processed_ids_append placed_ids_append
          del: main_loop.simps)
  qed
qed

text \<open>
  Submissions followed by \<open>n\<close> processings, from any state: the orders taken are the first
  \<open>n\<close> of the orders that were waiting followed by the orders placed.
\<close>

lemma submissions_then_processings:
  "processed_ids (fst (main_loop (map (\<lambda>(a, b). Choice1 a b) reqs @ replicate n Choice2) s)) =
     take n (map order_id (order_queue s) @
       placed_ids (fst (main_loop (map (\<lambda>(a, b). Choice1 a b) reqs @ replicate n Choice2) s))) \<and>
   length (placed_ids (fst (main_loop (map (\<lambda>(a, b). Choice1 a b) reqs @ replicate n Choice2) s)))
     \<le> length reqs"
proof (induction reqs arbitrary: s)
  case Nil
  show ?case by (simp add: processings_take_head del: main_loop.simps)
next
  case (Cons req reqs)
  obtain a b where req: "req = (a, b)" by (cases req)
  let ?t = "snd (place_order a b s)"
  note IH = Cons.IH [of ?t]
  from place_order_ids [of a b s]
  have no_proc: "processed_ids (fst (place_order a b s)) = []" by blast
  from place_order_ids [of a b s]
  consider (refused) "placed_ids (fst (place_order a b s)) = []" "?t = s"
    | (placed) new_order where "order_id new_order = order_id_counter s"
        "placed_ids (fst (place_order a b s)) = [order_id_counter s]"
        "order_queue ?t = order_queue s @ [new_order]"
    by blast
  then show ?case
  proof cases
    case refused
    with IH no_proc req show ?thesis
      by (simp add: main_loop_Cons menu_choice_def processed_ids_append placed_ids_append
          del: main_loop.simps)
  next
    case placed
    with IH no_proc req show ?thesis
      by (simp add: main_loop_Cons menu_choice_def processed_ids_append placed_ids_append
          del: main_loop.simps)
  qed
qed

text \<open>
  Over every sequence of menu choices, from any state: the orders taken from the queue,
  followed by the orders still waiting, are the orders that were waiting at the start
  followed by the orders placed. Orders leave the queue in the order they entered it.
\<close>

lemma menu_choice_queue:
  "c \<noteq> Choice5 \<Longrightarrow>
   processed_ids (fst (menu_choice c s)) @ map order_id (order_queue (snd (menu_choice c s))) =
     map order_id (order_queue s) @ placed_ids (fst (menu_choice c s)) \<and>
   length (processed_ids (fst (menu_choice c s))) \<le> length (order_queue s)"
proof (cases c)
  case (Choice1 a b)
  with place_order_ids [of a b s] show ?thesis
    by (auto simp: menu_choice_def)
next
  case Choice2
  with process_order_ids [of s] show ?thesis
    by (cases "order_queue s") (simp_all add: menu_choice_def)
qed (simp_all add: menu_choice_def show_riders_sorted_ids undo_last_action_ids)

lemma main_loop_fifo:
  "processed_ids (fst (main_loop cs s)) @ map order_id (order_queue (snd (main_loop cs s))) =
     map order_id (order_queue s) @ placed_ids (fst (main_loop cs s))"
proof (induction cs arbitrary: s)
  case Nil
  show ?case by simp
next
  case (Cons c cs)
  show ?case
  proof (cases "c = Choice5")
    case True
    then show ?thesis by simp
  next
    case False
    let ?t = "snd (menu_choice c s)"
    note IH = Cons.IH [of ?t]
    from menu_choice_queue [OF False, of s]
    have step: "processed_ids (fst (menu_choice c s)) @ map order_id (order_queue ?t) =
      map order_id (order_queue s) @ placed_ids (fst (menu_choice c s))"
      by blast
    have "processed_ids (fst (main_loop (c # cs) s)) @
            map order_id (order_queue (snd (main_loop (c # cs) s))) =
          processed_ids (fst (menu_choice c s)) @
            (processed_ids (fst (main_loop cs ?t)) @
             map order_id (order_queue (snd (main_loop cs ?t))))"
      using False by (simp add: main_loop_Cons processed_ids_append del: main_loop.simps)
    also have "\<dots> = (processed_ids (fst (menu_choice c s)) @ map order_id (order_queue ?t)) @
                      placed_ids (fst (main_loop cs ?t))"
      using IH by simp
    also have "\<dots> = map order_id (order_queue s) @ placed_ids (fst (main_loop (c # cs) s))"
      using False step by (simp add: main_loop_Cons placed_ids_append del: main_loop.simps)
    finally show ?thesis .
  qed
qed

text \<open>No menu choice changes the list of restaurants.\<close>

lemma menu_choice_restaurants: "my_restaurants (snd (menu_choice c s)) = my_restaurants s"
  by (cases c)
    (simp_all add: menu_choice_def place_order_def process_order_def show_riders_sorted_def
      undo_last_action_def Let_def split: option.splits list.splits prod.splits)

text \<open>
  When the restaurant is found, \<open>place_order\<close> reports the current value of the counter as
  the identifier, appends at the tail of the queue the order that carries this identifier
  with the name and location of the restaurant, advances the counter by one and records
  the placement in the history.
\<close>

lemma place_order_found:
  assumes "find_by_id (my_restaurants s) rest = Some r"
  shows "place_order (Some rest) (Some cust_loc) s =
     (display (my_restaurants s) @ [Success (order_id_counter s)],
      s\<lparr>order_id_counter := order_id_counter s + 1,
        order_queue := order_queue s @
          [\<lparr>order_id = order_id_counter s, restaurant_name = rest_name r,
            restaurant_loc = rest_location r, customer_loc = cust_loc\<rparr>],
        undo_stack := undo_stack s @ [''Placed Order #'' @ str_int (order_id_counter s)]\<rparr>)"
  using assms by (simp add: place_order_def Let_def)

text \<open>A menu choice places one order when it is an accepted submission, and none otherwise.\<close>

lemma menu_choice_accepted:
  "length (placed_ids (fst (menu_choice c s))) = (if accepted (my_restaurants s) c then 1 else 0)"
proof (cases c)
  case (Choice1 a b)
  then show ?thesis
    by (auto simp: menu_choice_def accepted_def place_order_def Let_def placed_ids_append
        ids_display split: option.splits)
qed (simp_all add: menu_choice_def accepted_def process_order_ids show_riders_sorted_ids
      undo_last_action_ids)

lemma main_loop_accepted:
  "length (placed_ids (fst (main_loop cs s))) =
     length (filter (accepted (my_restaurants s)) (takeWhile (\<lambda>c. c \<noteq> Choice5) cs))"
proof (induction cs arbitrary: s)
  case Nil
  show ?case by simp
next
  case (Cons c cs)
  show ?case
  proof (cases "c = Choice5")
    case True
    then show ?thesis by simp
  next
    case False
    with Cons.IH [of "snd (menu_choice c s)"] menu_choice_accepted [of c s] show ?thesis
      by (simp add: main_loop_Cons placed_ids_append menu_choice_restaurants
          del: main_loop.simps)
  qed
qed

text \<open>
  Claim C6: over every sequence of menu choices from the start of the program, the order
  identifiers given out are 1, 2, 3, ... in this order: they start at 1, each is one more
  than the one before, so they increase strictly and none occurs twice, and the counter is
  always one past the number of orders created. One identifier is given out for each
  accepted submission typed before choice 5, and the identifiers are the ones carried by
  the orders taken from the queue followed by the orders still waiting in it. In any
  state, a submission for a restaurant that is found creates the order whose identifier
  is the current value of the counter, enqueues it and advances the counter by one.
\<close>

theorem order_ids_sequential:
  "placed_ids (fst (main cs)) = [1..int (length (placed_ids (fst (main cs))))] \<and>
   sorted_wrt (<) (placed_ids (fst (main cs))) \<and>
   distinct (placed_ids (fst (main cs))) \<and>
   order_id_counter (snd (main cs)) = 1 + int (length (placed_ids (fst (main cs)))) \<and>
   length (placed_ids (fst (main cs))) =
     length (filter (accepted (my_restaurants (initialize_data globals)))
       (takeWhile (\<lambda>c. c \<noteq> Choice5) cs)) \<and>
   processed_ids (fst (main cs)) @ map order_id (order_queue (snd (main cs))) =
     placed_ids (fst (main cs)) \<and>
   (find_by_id (my_restaurants s) rest = Some r \<longrightarrow>
      place_order (Some rest) (Some cust_loc) s =
        (display (my_restaurants s) @ [Success (order_id_counter s)],
         s\<lparr>order_id_counter := order_id_counter s + 1,
           order_queue := order_queue s @
             [\<lparr>order_id = order_id_counter s, restaurant_name = rest_name r,
               restaurant_loc = rest_location r, customer_loc = cust_loc\<rparr>],
           undo_stack := undo_stack s @
             [''Placed Order #'' @ str_int (order_id_counter s)]\<rparr>))"
proof -
  have c1: "order_id_counter (initialize_data globals) = 1"
    by (simp add: initialize_data_def globals_def)
  have q0: "order_queue (initialize_data globals) = []"
    by (simp add: initialize_data_def globals_def)
  from main_loop_counter [of cs "initialize_data globals"] c1
  have ids: "placed_ids (fst (main cs)) = [1..int (length (placed_ids (fst (main cs))))]"
    and cnt: "order_id_counter (snd (main cs)) = 1 + int (length (placed_ids (fst (main cs))))"
    by (simp_all add: main_def upto_as_map)
  have "sorted_wrt (<) [1..int (length (placed_ids (fst (main cs))))]"
    by (rule sorted_wrt_upto)
  with ids have inc: "sorted_wrt (<) (placed_ids (fst (main cs)))"
    by simp
  have "distinct [1..int (length (placed_ids (fst (main cs))))]"
    by (rule distinct_upto)
  with ids have dist: "distinct (placed_ids (fst (main cs)))"
    by simp
  have num: "length (placed_ids (fst (main cs))) =
     length (filter (accepted (my_restaurants (initialize_data globals)))
       (takeWhile (\<lambda>c. c \<noteq> Choice5) cs))"
    by (simp add: main_def main_loop_accepted)
  from main_loop_fifo [of cs "initialize_data globals"] q0
  have carried: "processed_ids (fst (main cs)) @ map order_id (order_queue (snd (main cs))) =
     placed_ids (fst (main cs))"
    by (simp add: main_def)
  from ids inc dist cnt num carried place_order_found [of s rest r cust_loc]
  show ?thesis by blast
qed

text \<open>
  A run on the seed data: three accepted submissions (restaurants 101, 103 and 102), one
  for the unknown identifier 999, one with a line that is not a number, one processing
  and one undo. The identifiers placed are 1, 2, 3; order 1 has been processed, orders 2
  and 3 wait, and the counter is 4.
\<close>

theorem order_ids_sequential_witness:
  "placed_ids (fst (main
      [Choice1 (Some 101) (Some 7), Choice1 (Some 999) (Some 3), Choice1 (Some 103) (Some 4),
       Choice2, Choice4, Choice1 None (Some 1), Choice1 (Some 102) (Some 0)])) = [1, 2, 3] \<and>
   processed_ids (fst (main
      [Choice1 (Some 101) (Some 7), Choice1 (Some 999) (Some 3), Choice1 (Some 103) (Some 4),
       Choice2, Choice4, Choice1 None (Some 1), Choice1 (Some 102) (Some 0)])) = [1] \<and>
   map order_id (order_queue (snd (main
      [Choice1 (Some 101) (Some 7), Choice1 (Some 999) (Some 3), Choice1 (Some 103) (Some 4),
       Choice2, Choice4, Choice1 None (Some 1), Choice1 (Some 102) (Some 0)]))) = [2, 3] \<and>
   order_id_counter (snd (main
      [Choice1 (Some 101) (Some 7), Choice1 (Some 999) (Some 3), Choice1 (Some 103) (Some 4),
       Choice2, Choice4, Choice1 None (Some 1), Choice1 (Some 102) (Some 0)])) = 4 \<and>
   find_by_id (my_restaurants (initialize_data globals)) 101 =
     Some \<lparr>rest_id = 101, rest_name = ''Burger King'', rating = 4.5, rest_location = 2\<rparr> \<and>
   order_queue (snd (place_order (Some 101) (Some 7) (initialize_data globals))) =
     [\<lparr>order_id = 1, restaurant_name = ''Burger King'', restaurant_loc = 2, customer_loc = 7\<rparr>] \<and>
   order_id_counter (snd (place_order (Some 101) (Some 7) (initialize_data globals))) = 2 \<and>
   undo_stack (snd (place_order (Some 101) (Some 7) (initialize_data globals))) =
     [''Placed Order #1'']"
proof -
  let ?cs = "[Choice1 (Some 101) (Some 7), Choice1 (Some 999) (Some 3),
       Choice1 (Some 103) (Some 4), Choice2, Choice4, Choice1 None (Some 1),
       Choice1 (Some 102) (Some 0)]"
  let ?r = "\<lparr>rest_id = 101, rest_name = ''Burger King'', rating = 4.5, rest_location = 2\<rparr>"
  note inst = order_ids_sequential [of ?cs "initialize_data globals" 101 ?r 7]
  have found: "find_by_id (my_restaurants (initialize_data globals)) 101 = Some ?r"
    by (simp add: initialize_data_def globals_def add_restaurant_def)
  have three: "length (filter (accepted (my_restaurants (initialize_data globals)))
       (takeWhile (\<lambda>c. c \<noteq> Choice5) ?cs)) = 3"
    by (simp add: accepted_def initialize_data_def globals_def add_restaurant_def)
  from inst three have len: "length (placed_ids (fst (main ?cs))) = 3"
    by simp
  from inst len have "placed_ids (fst (main ?cs)) = [1..3]"
    by simp
  then have placed: "placed_ids (fst (main ?cs)) = [1, 2, 3]"
    by (simp add: upto.simps)
  from inst len have counter: "order_id_counter (snd (main ?cs)) = 4"
    by simp
  have processed: "processed_ids (fst (main ?cs)) = [1]"
    by (simp add: run_defs)
  from inst have "processed_ids (fst (main ?cs)) @ map order_id (order_queue (snd (main ?cs))) =
     placed_ids (fst (main ?cs))"
    by blast
  with placed processed have waiting: "map order_id (order_queue (snd (main ?cs))) = [2, 3]"
    by simp
  from inst found have "place_order (Some 101) (Some 7) (initialize_data globals) =
        (display (my_restaurants (initialize_data globals)) @
           [Success (order_id_counter (initialize_data globals))],
         (initialize_data globals)\<lparr>order_id_counter := order_id_counter (initialize_data globals) + 1,
           order_queue := order_queue (initialize_data globals) @
             [\<lparr>order_id = order_id_counter (initialize_data globals), restaurant_name = rest_name ?r,
               restaurant_loc = rest_location ?r, customer_loc = 7\<rparr>],
           undo_stack := undo_stack (initialize_data globals) @
             [''Placed Order #'' @ str_int (order_id_counter (initialize_data globals))]\<rparr>)"
    by blast
  then have step: "order_queue (snd (place_order (Some 101) (Some 7) (initialize_data globals))) =
     [\<lparr>order_id = 1, restaurant_name = ''Burger King'', restaurant_loc = 2, customer_loc = 7\<rparr>] \<and>
   order_id_counter (snd (place_order (Some 101) (Some 7) (initialize_data globals))) = 2 \<and>
   undo_stack (snd (place_order (Some 101) (Some 7) (initialize_data globals))) =
     [''Placed Order #1'']"
    by (simp add: initialize_data_def globals_def str_defs)
  from placed processed waiting counter found step show ?thesis
    by blast
qed

text \<open>
  Claim C5: N submissions followed by N processings, starting with nothing in the queue,
  process the orders in exactly the order in which they were placed: the identifiers
  taken from the queue, in the order of the output, are the identifiers placed, in the
  order of the output. This holds for every roster, so for a non-empty one that only
  these processings change.
\<close>

theorem orders_processed_in_submission_order:
  assumes "order_queue s = []"
  shows "processed_ids (fst (main_loop
            (map (\<lambda>(a, b). Choice1 a b) reqs @ replicate (length reqs) Choice2) s)) =
         placed_ids (fst (main_loop
            (map (\<lambda>(a, b). Choice1 a b) reqs @ replicate (length reqs) Choice2) s))"
  using submissions_then_processings [of reqs "length reqs" s] assms
  by simp

text \<open>Three orders on the seed data, from restaurants 102, 101 and 103.\<close>

theorem orders_processed_in_submission_order_witness:
  "order_queue (initialize_data globals) = [] \<and>
   processed_ids (fst (main_loop
     (map (\<lambda>(a, b). Choice1 a b) [(Some 102, Some 4), (Some 101, Some 7), (Some 103, Some 0)] @
        replicate (length [(Some 102, Some 4), (Some 101, Some 7), (Some 103, Some (0::int))])
          Choice2)
     (initialize_data globals))) = [1, 2, 3] \<and>
   placed_ids (fst (main_loop
     (map (\<lambda>(a, b). Choice1 a b) [(Some 102, Some 4), (Some 101, Some 7), (Some 103, Some 0)] @
        replicate (length [(Some 102, Some 4), (Some 101, Some 7), (Some 103, Some (0::int))])
          Choice2)
     (initialize_data globals))) = [1, 2, 3]"
proof -
  have q: "order_queue (initialize_data globals) = []"
    by (simp add: initialize_data_def globals_def)
  have "placed_ids (fst (main_loop
     (map (\<lambda>(a, b). Choice1 a b) [(Some 102, Some 4), (Some 101, Some 7), (Some 103, Some 0)] @
        replicate (length [(Some 102, Some 4), (Some 101, Some 7), (Some 103, Some (0::int))])
          Choice2)
     (initialize_data globals))) = [1, 2, 3]"
    by (simp add: run_defs numeral_3_eq_3)
  with q orders_processed_in_submission_order [OF q,
      of "[(Some 102, Some 4), (Some 101, Some 7), (Some 103, Some 0)]"]
  show ?thesis by simp
qed

section \<open>The riders sorted by workload\<close>

text \<open>
  Claim C7: \<open>show_riders_sorted\<close> is a stable ascending sort by \<open>deliveries_done\<close>: the
  roster it leaves is ascending in \<open>deliveries_done\<close> and holds the same riders, the riders
  of any one workload are in the order they had before, and a second call right after the
  first returns the same output and the same state.
\<close>

theorem show_riders_sorted_stable:
  "sorted (map deliveries_done (my_riders (snd (show_riders_sorted s)))) \<and>
   mset (my_riders (snd (show_riders_sorted s))) = mset (my_riders s) \<and>
   (\<forall>k. filter (\<lambda>r. deliveries_done r = k) (my_riders (snd (show_riders_sorted s))) =
        filter (\<lambda>r. deliveries_done r = k) (my_riders s)) \<and>
   show_riders_sorted (snd (show_riders_sorted s)) = show_riders_sorted s"
proof -
  let ?rs = "sort_key deliveries_done (my_riders s)"
  have "sorted (map deliveries_done ?rs)"
    by (rule sorted_sort_key)
  then have "sort_key deliveries_done ?rs = ?rs"
    by (rule sort_key_id_if_sorted)
  then show ?thesis
    by (simp add: show_riders_sorted_def Let_def sort_key_stable)
qed

text \<open>
  After Ali's first delivery on the seed data the workloads are 1, 2, 0: Hamza comes
  first, Ali and Bilal keep their order.
\<close>

theorem show_riders_sorted_stable_witness:
  "my_riders (snd (show_riders_sorted (snd (main [Choice1 (Some 101) (Some 1), Choice2])))) =
     [\<lparr>rider_id = 203, rider_name = ''Hamza'', location = 3, deliveries_done = 0\<rparr>,
      \<lparr>rider_id = 201, rider_name = ''Ali'', location = 1, deliveries_done = 1\<rparr>,
      \<lparr>rider_id = 202, rider_name = ''Bilal'', location = 6, deliveries_done = 2\<rparr>] \<and>
   sorted (map deliveries_done
     (my_riders (snd (show_riders_sorted (snd (main [Choice1 (Some 101) (Some 1), Choice2])))))) \<and>
   show_riders_sorted (snd (show_riders_sorted (snd (main [Choice1 (Some 101) (Some 1), Choice2])))) =
     show_riders_sorted (snd (main [Choice1 (Some 101) (Some 1), Choice2]))"
proof -
  let ?s = "snd (main [Choice1 (Some 101) (Some 1), Choice2])"
  have "my_riders (snd (show_riders_sorted ?s)) =
     [\<lparr>rider_id = 203, rider_name = ''Hamza'', location = 3, deliveries_done = 0\<rparr>,
      \<lparr>rider_id = 201, rider_name = ''Ali'', location = 1, deliveries_done = 1\<rparr>,
      \<lparr>rider_id = 202, rider_name = ''Bilal'', location = 6, deliveries_done = 2\<rparr>]"
    by (simp add: run_defs)
  moreover note show_riders_sorted_stable [of ?s]
  ultimately show ?thesis
    by simp
qed

text \<open>
  Claim C9: \<open>show_riders_sorted\<close> sorts the list \<open>my_riders\<close> itself, so the roster of the
  state it returns is the sorted list; a \<open>process_order\<close> that follows and assigns a rider
  scans that list, and the rider it assigns is the first of the nearest riders in the
  sorted order.
\<close>

theorem sorted_view_reorders_roster:
  assumes q: "order_queue s = current_order # pending"
    and some: "NoRidersFound \<notin> set (fst (process_order (snd (show_riders_sorted s))))"
  shows "my_riders (snd (show_riders_sorted s)) = sort_key deliveries_done (my_riders s) \<and>
    (\<exists>b. nearest_first (sort_key deliveries_done (my_riders s)) (restaurant_loc current_order) b \<and>
       AssignedToRider (rider_name (sort_key deliveries_done (my_riders s) ! b))
         \<in> set (fst (process_order (snd (show_riders_sorted s)))) \<and>
       my_riders (snd (process_order (snd (show_riders_sorted s)))) =
         (sort_key deliveries_done (my_riders s))
           [b := (sort_key deliveries_done (my_riders s) ! b)
              \<lparr>deliveries_done := deliveries_done (sort_key deliveries_done (my_riders s) ! b) + 1,
               location := customer_loc current_order\<rparr>])"
proof -
  let ?t = "snd (show_riders_sorted s)"
  have riders: "my_riders ?t = sort_key deliveries_done (my_riders s)"
    by (simp add: show_riders_sorted_def Let_def)
  from q have "order_queue ?t = current_order # pending"
    by (simp add: show_riders_sorted_def Let_def)
  from process_order_rider [OF this some] riders show ?thesis
    by force
qed

text \<open>
  On the seed data, after Ali has delivered to a customer at 1, Ali (one delivery) and
  Hamza (none) are both at distance 1 from restaurant 101. Processing the next order
  assigns Ali, the first in the order of registration; after \<open>show_riders_sorted\<close> the
  same processing assigns Hamza, the first in the order of workload.
\<close>

theorem sorted_view_reorders_roster_witness:
  "fst (process_order (snd (main
      [Choice1 (Some 101) (Some 1), Choice2, Choice1 (Some 101) (Some 9)]))) =
     [Processing 2 ''Burger King'', AssignedToRider ''Ali'', TimeToRestaurant 1,
      TimeToCustomer 7, TotalTime 8] \<and>
   fst (process_order (snd (show_riders_sorted (snd (main
      [Choice1 (Some 101) (Some 1), Choice2, Choice1 (Some 101) (Some 9)]))))) =
     [Processing 2 ''Burger King'', AssignedToRider ''Hamza'', TimeToRestaurant 1,
      TimeToCustomer 7, TotalTime 8] \<and>
   my_riders (snd (show_riders_sorted (snd (main
      [Choice1 (Some 101) (Some 1), Choice2, Choice1 (Some 101) (Some 9)])))) =
     sort_key deliveries_done (my_riders (snd (main
      [Choice1 (Some 101) (Some 1), Choice2, Choice1 (Some 101) (Some 9)]))) \<and>
   (\<exists>b. nearest_first (sort_key deliveries_done (my_riders (snd (main
             [Choice1 (Some 101) (Some 1), Choice2, Choice1 (Some 101) (Some 9)])))) 2 b \<and>
        rider_name (sort_key deliveries_done (my_riders (snd (main
             [Choice1 (Some 101) (Some 1), Choice2, Choice1 (Some 101) (Some 9)]))) ! b) = ''Hamza'')"
proof -
  let ?s = "snd (main [Choice1 (Some 101) (Some 1), Choice2, Choice1 (Some 101) (Some 9)])"
  let ?o = "\<lparr>order_id = 2, restaurant_name = ''Burger King'', restaurant_loc = 2,
             customer_loc = 9\<rparr>"
  have q: "order_queue ?s = [?o]"
    by (simp add: run_defs)
  have unsorted: "fst (process_order ?s) =
     [Processing 2 ''Burger King'', AssignedToRider ''Ali'', TimeToRestaurant 1,
      TimeToCustomer 7, TotalTime 8]"
    by (simp add: run_defs)
  have out: "fst (process_order (snd (show_riders_sorted ?s))) =
     [Processing 2 ''Burger King'', AssignedToRider ''Hamza'', TimeToRestaurant 1,
      TimeToCustomer 7, TotalTime 8]"
    by (simp add: run_defs)
  then have some: "NoRidersFound \<notin> set (fst (process_order (snd (show_riders_sorted ?s))))"
    by simp
  from sorted_view_reorders_roster [OF q some] out
  have "my_riders (snd (show_riders_sorted ?s)) = sort_key deliveries_done (my_riders ?s) \<and>
    (\<exists>b. nearest_first (sort_key deliveries_done (my_riders ?s)) 2 b \<and>
        rider_name (sort_key deliveries_done (my_riders ?s) ! b) = ''Hamza'')"
    by auto
  with unsorted out show ?thesis by blast
qed

section \<open>The history\<close>

text \<open>
  Claim C8: \<open>undo_last_action\<close> removes the most recent entry of the history and reports
  it, or reports that there is nothing to undo when the history is empty, and changes
  nothing else: restaurants, riders, queue and counter are the ones before the call. In
  particular the riders after processing an order and undoing are the riders after
  processing it.
\<close>

theorem undo_only_pops_history:
  "my_restaurants (snd (undo_last_action s)) = my_restaurants s \<and>
   my_riders (snd (undo_last_action s)) = my_riders s \<and>
   order_queue (snd (undo_last_action s)) = order_queue s \<and>
   order_id_counter (snd (undo_last_action s)) = order_id_counter s \<and>
   undo_stack (snd (undo_last_action s)) = butlast (undo_stack s) \<and>
   (undo_stack s = [] \<longrightarrow> undo_last_action s = ([NothingToUndo], s)) \<and>
   (\<forall>h d. undo_stack s = h @ [d] \<longrightarrow>
      undo_last_action s = ([UndoingAction d, UndoNote], s\<lparr>undo_stack := h\<rparr>)) \<and>
   my_riders (snd (undo_last_action (snd (process_order s)))) = my_riders (snd (process_order s))"
  by (simp add: undo_last_action_def Let_def)

text \<open>
  The end-to-end scenario continued: after the order for the customer at 7 is processed,
  undo removes the entry of the processing, and Ali is still at 7 with one delivery.
\<close>

theorem undo_only_pops_history_witness:
  "undo_stack (snd (process_order (snd (main [Choice1 (Some 101) (Some 7)])))) =
     [''Placed Order #1''] @ [''Processed Order #1''] \<and>
   undo_last_action (snd (process_order (snd (main [Choice1 (Some 101) (Some 7)])))) =
     ([UndoingAction ''Processed Order #1'', UndoNote],
      (snd (process_order (snd (main [Choice1 (Some 101) (Some 7)]))))
        \<lparr>undo_stack := [''Placed Order #1'']\<rparr>) \<and>
   my_riders (snd (undo_last_action
       (snd (process_order (snd (main [Choice1 (Some 101) (Some 7)])))))) =
     [\<lparr>rider_id = 201, rider_name = ''Ali'', location = 7, deliveries_done = 1\<rparr>,
      \<lparr>rider_id = 202, rider_name = ''Bilal'', location = 6, deliveries_done = 2\<rparr>,
      \<lparr>rider_id = 203, rider_name = ''Hamza'', location = 3, deliveries_done = 0\<rparr>]"
proof -
  let ?s = "snd (process_order (snd (main [Choice1 (Some 101) (Some 7)])))"
  have st: "undo_stack ?s = [''Placed Order #1''] @ [''Processed Order #1'']"
    by (simp add: run_defs str_defs)
  have riders: "my_riders ?s =
     [\<lparr>rider_id = 201, rider_name = ''Ali'', location = 7, deliveries_done = 1\<rparr>,
      \<lparr>rider_id = 202, rider_name = ''Bilal'', location = 6, deliveries_done = 2\<rparr>,
      \<lparr>rider_id = 203, rider_name = ''Hamza'', location = 3, deliveries_done = 0\<rparr>]"
    by (simp add: run_defs)
  note undo = undo_only_pops_history [of ?s]
  from undo have same: "my_riders (snd (undo_last_action ?s)) = my_riders ?s"
    by blast
  from undo st have "undo_last_action ?s =
     ([UndoingAction ''Processed Order #1'', UndoNote],
      ?s\<lparr>undo_stack := [''Placed Order #1'']\<rparr>)"
    by blast
  with st same riders show ?thesis
    by simp
qed

text \<open>
  Claim C10: when \<open>process_order\<close> takes an order from the queue and finds no rider, it
  appends nothing to the history: the history is the one before the call, and the next
  \<open>undo_last_action\<close> reports what it would have reported before the call.
\<close>

theorem no_rider_leaves_no_history:
  assumes "order_queue s = current_order # pending"
    and "NoRidersFound \<in> set (fst (process_order s))"
  shows "undo_stack (snd (process_order s)) = undo_stack s \<and>
         fst (undo_last_action (snd (process_order s))) = fst (undo_last_action s)"
  using process_order_no_rider [OF assms]
  by (simp add: undo_last_action_def Let_def)

text \<open>
  On the seed data, four orders from restaurant 103 for a customer at 9000, three of them
  processed: the fourth finds no rider, and undo then reports the third processing.
\<close>

theorem no_rider_leaves_no_history_witness:
  "order_queue (snd (main
      [Choice1 (Some 103) (Some 9000), Choice1 (Some 103) (Some 9000),
       Choice1 (Some 103) (Some 9000), Choice1 (Some 103) (Some 9000),
       Choice2, Choice2, Choice2])) =
     [\<lparr>order_id = 4, restaurant_name = ''Subway'', restaurant_loc = 5, customer_loc = 9000\<rparr>] \<and>
   fst (process_order (snd (main
      [Choice1 (Some 103) (Some 9000), Choice1 (Some 103) (Some 9000),
       Choice1 (Some 103) (Some 9000), Choice1 (Some 103) (Some 9000),
       Choice2, Choice2, Choice2]))) = [Processing 4 ''Subway'', NoRidersFound] \<and>
   fst (undo_last_action (snd (process_order (snd (main
      [Choice1 (Some 103) (Some 9000), Choice1 (Some 103) (Some 9000),
       Choice1 (Some 103) (Some 9000), Choice1 (Some 103) (Some 9000),
       Choice2, Choice2, Choice2]))))) = [UndoingAction ''Processed Order #3'', UndoNote]"
proof -
  let ?s = "snd (main
      [Choice1 (Some 103) (Some 9000), Choice1 (Some 103) (Some 9000),
       Choice1 (Some 103) (Some 9000), Choice1 (Some 103) (Some 9000),
       Choice2, Choice2, Choice2])"
  have q: "order_queue ?s =
     [\<lparr>order_id = 4, restaurant_name = ''Subway'', restaurant_loc = 5, customer_loc = 9000\<rparr>]"
    by (simp add: run_defs)
  have out: "fst (process_order ?s) = [Processing 4 ''Subway'', NoRidersFound]"
    by (simp add: run_defs)
  then have none: "NoRidersFound \<in> set (fst (process_order ?s))"
    by simp
  have before: "fst (undo_last_action ?s) = [UndoingAction ''Processed Order #3'', UndoNote]"
    by (simp add: run_defs str_defs)
  from no_rider_leaves_no_history [OF q none] before
  have "fst (undo_last_action (snd (process_order ?s))) =
          [UndoingAction ''Processed Order #3'', UndoNote]"
    by simp
  with q out show ?thesis by blast
qed

end
